theory Spec2Isabelle
  imports Main
begin

section \<open>Relay dashboard: the relay state store and its synchronisation\<close>

text \<open>
  The development embeds the class \<open>HomeAutomationApp\<close> of \<^verbatim>\<open>js/app.js\<close> and, where
  it differs, of \<^verbatim>\<open>frontend/js/app.js\<close> (definitions with the suffix \<open>_fe\<close>).

  Conventions of the embedding:
  \<^item> \<open>this.relayStates\<close> (a plain object in \<^verbatim>\<open>js/app.js\<close>, a \<open>Map\<close> in the frontend) is a
    partial map from identifiers to entries: the own properties of the object, or the keys
    of the \<open>Map\<close>. Reading \<open>this.relayStates[relayId]\<close> on the plain object falls through to
    \<open>Object.prototype\<close> when there is no own property, so the reads of \<^verbatim>\<open>js/app.js\<close> go
    through \<open>Object_prototype_names\<close>; \<open>Map.get\<close> of the frontend sees the keys only.
    Assigning the property \<open>__proto__\<close> would replace the prototype rather than add an
    entry; that key is taken not to occur among the keys of a snapshot.
  \<^item> \<open>new Date()\<close> is a clock reading handed to the function that takes it, one reading
    for one callback.
  \<^item> A snapshot value is the list of its entries in the order \<open>Object.keys\<close> gives them;
    the keys of an object are distinct. A field that is absent reads as \<open>undefined\<close>,
    here \<open>None\<close>; following the remote layout a present \<open>status\<close> is a boolean and a
    present \<open>name\<close> a string.
  \<^item> Calls that leave the page (database writes, API requests, console output and
    notifications) are returned as a list of effects, in the order they are made. Whether
    an awaited remote call resolves or rejects is a boolean argument \<open>ok\<close>.
  \<^item> Rendering (\<open>createRelayCard\<close>, \<open>updateRelayUI\<close>) does not touch the store and is left out,
    except for the text of the \<open>active-count\<close> element.
\<close>

subsection \<open>Constants and template literals\<close>

definition DEVICE_ID :: string where
  "DEVICE_ID = ''pico_w_001''"

definition RELAY_NAMES :: "string list" where
  "RELAY_NAMES =
    [''Living Room Light'', ''Kitchen Fan'', ''Bedroom AC'', ''Garden Pump'',
     ''Garage Door'', ''Pool Pump'', ''Security Light'', ''Bathroom Fan'',
     ''Washing Machine'', ''Dryer'', ''Water Heater'', ''Outdoor Light'',
     ''Workshop Light'', ''Shed Power'', ''Irrigation System'', ''Backup Power'']"

definition RELAY_COUNT :: nat where
  "RELAY_COUNT = 16"

definition RELAYS_ENDPOINT :: string where
  "RELAYS_ENDPOINT = ''/relays''"

definition digit_char :: "nat \<Rightarrow> char" where
  "digit_char d =
    (if d = 0 then CHR ''0'' else if d = 1 then CHR ''1'' else if d = 2 then CHR ''2''
     else if d = 3 then CHR ''3'' else if d = 4 then CHR ''4'' else if d = 5 then CHR ''5''
     else if d = 6 then CHR ''6'' else if d = 7 then CHR ''7'' else if d = 8 then CHR ''8''
     else CHR ''9'')"

text \<open>The decimal text a template literal produces for a non-negative integer.\<close>

fun show_nat :: "nat \<Rightarrow> string" where
  "show_nat n =
    (if n < 10 then [digit_char n] else show_nat (n div 10) @ [digit_char (n mod 10)])"

declare show_nat.simps [simp del]

text \<open>\<open>`relay_${i}`\<close>\<close>

definition relayId_of :: "nat \<Rightarrow> string" where
  "relayId_of i = ''relay_'' @ show_nat i"

text \<open>\<open>`home_automation/devices/${DEVICE_ID}/relays/${relayId}/status`\<close>\<close>

definition status_path :: "string \<Rightarrow> string" where
  "status_path relayId =
    ''home_automation/devices/'' @ DEVICE_ID @ ''/relays/'' @ relayId @ ''/status''"

text \<open>\<open>RELAY_NAMES[i - 1] || `Device ${i}`\<close>: an index past the end reads \<open>undefined\<close>, and
  \<open>undefined\<close> and the empty string are both falsy.\<close>

definition relayName_of :: "nat \<Rightarrow> string" where
  "relayName_of i =
    (if i - 1 < length RELAY_NAMES \<and> RELAY_NAMES ! (i - 1) \<noteq> []
     then RELAY_NAMES ! (i - 1) else ''Device '' @ show_nat i)"

text \<open>\<open>String.prototype.split\<close> with a one-character separator.\<close>

fun split_on :: "char \<Rightarrow> string \<Rightarrow> string list" where
  "split_on c [] = [[]]"
| "split_on c (x # xs) =
    (if x = c then [] # split_on c xs
     else (case split_on c xs of [] \<Rightarrow> [[x]] | y # ys \<Rightarrow> (x # y) # ys))"

text \<open>\<open>`Device ${relayId.split('_')[1]}`\<close>: a missing second piece prints as \<open>undefined\<close>.\<close>

definition device_fallback_name :: "string \<Rightarrow> string" where
  "device_fallback_name relayId =
    ''Device '' @ (case split_on CHR ''_'' relayId of
                     _ # piece # _ \<Rightarrow> piece
                   | _ \<Rightarrow> ''undefined'')"

subsection \<open>Data\<close>

type_synonym timestamp = nat

text \<open>An entry of \<open>this.relayStates\<close>; \<open>lastChanged\<close> is \<open>null\<close> or a date.\<close>

record relay =
  status :: bool
  name :: string
  lastChanged :: "timestamp option"

text \<open>The frontend's entry has one more field.\<close>

record relay_fe = relay +
  powerUsage :: int

text \<open>What a snapshot holds for one channel.\<close>

record relay_data =
  data_status :: "bool option"
  data_name :: "string option"
  data_power_usage :: "int option"

type_synonym snapshot = "(string \<times> relay_data) list"

type_synonym store = "string \<rightharpoonup> relay"

type_synonym store_fe = "string \<rightharpoonup> relay_fe"

text \<open>The fields of the application object that the relay logic reads or writes;
  \<open>activeCountText\<close> is the text content of the \<open>active-count\<close> element.\<close>

record app =
  relayStates :: store
  deviceOnline :: bool
  lastUpdate :: "timestamp option"
  activeCountText :: string

record app_fe =
  relayStates_fe :: store_fe
  deviceOnline_fe :: bool
  apiConnected :: bool
  lastUpdate_fe :: "timestamp option"
  activeCountText_fe :: string

datatype js_error = TypeError

text \<open>Calls that leave the page. \<open>RefSet path v\<close> is \<open>database.ref(path).set(v)\<close>,
  \<open>RefUpdate updates\<close> is \<open>database.ref().update(updates)\<close> with the properties of
  \<open>updates\<close> in insertion order, \<open>RefOnce path\<close> is a one-time read, \<open>ApiRequest endpoint
  method body\<close> is \<open>Utils.apiRequest\<close> with the \<open>status\<close> field of its JSON body if it has
  one, and \<open>Notification message type\<close> is \<open>showNotification\<close>.\<close>

datatype effect =
    RefSet string bool
  | RefUpdate "(string \<times> bool) list"
  | RefOnce string
  | ApiRequest string string "bool option"
  | ConsoleLog string
  | ConsoleError string
  | Notification string string

fun is_write :: "effect \<Rightarrow> bool" where
  "is_write (RefSet _ _) = True"
| "is_write (RefUpdate _) = True"
| "is_write (ApiRequest _ _ _) = True"
| "is_write _ = False"

fun is_read :: "effect \<Rightarrow> bool" where
  "is_read (RefOnce _) = True"
| "is_read _ = False"

text \<open>\<open>x || false\<close> and \<open>x || 0\<close> on an optional field.\<close>

definition or_false :: "bool option \<Rightarrow> bool" where
  "or_false x = (case x of Some b \<Rightarrow> b | None \<Rightarrow> False)"

definition or_zero :: "int option \<Rightarrow> int" where
  "or_zero x = (case x of Some n \<Rightarrow> n | None \<Rightarrow> 0)"

definition on_off :: "bool \<Rightarrow> string" where
  "on_off b = (if b then ''ON'' else ''OFF'')"

subsection \<open>\<^verbatim>\<open>js/app.js\<close>\<close>

text \<open>The loop of \<open>createRelayControls\<close>, \<open>for (let i = 1; i <= 16; i++)\<close>, over the store.\<close>

definition channel_indices :: "nat list" where
  "channel_indices = [1..<17]"

definition initial_relay :: "nat \<Rightarrow> relay" where
  "initial_relay i = \<lparr>status = False, name = relayName_of i, lastChanged = None\<rparr>"

definition createRelayControls :: "app \<Rightarrow> app" where
  "createRelayControls s =
    s\<lparr>relayStates :=
        foldl (\<lambda>m i. m(relayId_of i \<mapsto> initial_relay i)) (relayStates s) channel_indices\<rparr>"

text \<open>The constructor: an empty store, then \<open>createRelayControls\<close>. The \<open>active-count\<close>
  element starts with the text of the page, which is not under \<^verbatim>\<open>src/\<close>.\<close>

definition new_HomeAutomationApp :: "string \<Rightarrow> app" where
  "new_HomeAutomationApp page_text =
    createRelayControls
      \<lparr>relayStates = Map.empty, deviceOnline = False, lastUpdate = None,
       activeCountText = page_text\<rparr>"

text \<open>The property names that the plain object \<open>this.relayStates = {}\<close> inherits from
  \<open>Object.prototype\<close>. Reading one of them without an own property of that name gives the
  inherited member, which is not \<open>undefined\<close>: a function, or for \<open>__proto__\<close> the prototype
  object itself. None of these members has a \<open>status\<close> property.\<close>

definition Object_prototype_names :: "string list" where
  "Object_prototype_names =
    [''constructor'', ''__defineGetter__'', ''__defineSetter__'', ''hasOwnProperty'',
     ''__lookupGetter__'', ''__lookupSetter__'', ''isPrototypeOf'', ''propertyIsEnumerable'',
     ''toString'', ''valueOf'', ''__proto__'', ''toLocaleString'']"

text \<open>The \<open>name\<close> property of an inherited member: a function carries its own name, which
  is \<open>Object\<close> for \<open>constructor\<close> and the property name for the others; the prototype
  object has no \<open>name\<close>.\<close>

definition inherited_name :: "string \<Rightarrow> string option" where
  "inherited_name relayId =
    (if relayId = ''constructor'' then Some ''Object''
     else if relayId = ''__proto__'' then None
     else if relayId \<in> set Object_prototype_names then Some relayId
     else None)"

text \<open>\<open>this.relayStates[relayId]?.name\<close> on the plain object: the name of the own entry,
  else that of an inherited member, else \<open>undefined\<close>.\<close>

definition cached_name :: "store \<Rightarrow> string \<Rightarrow> string option" where
  "cached_name m relayId =
    (case m relayId of Some r \<Rightarrow> Some (name r) | None \<Rightarrow> inherited_name relayId)"

text \<open>\<open>relay.name || this.relayStates[relayId]?.name || `Device ...`\<close>\<close>

definition merged_name :: "string option \<Rightarrow> string option \<Rightarrow> string \<Rightarrow> string" where
  "merged_name given cached relayId =
    (case given of
       Some n \<Rightarrow> if n \<noteq> [] then n
                 else (case cached of
                         Some c \<Rightarrow> if c \<noteq> [] then c else device_fallback_name relayId
                       | None \<Rightarrow> device_fallback_name relayId)
     | None \<Rightarrow> (case cached of
                  Some c \<Rightarrow> if c \<noteq> [] then c else device_fallback_name relayId
                | None \<Rightarrow> device_fallback_name relayId))"

text \<open>The body of the \<open>forEach\<close> in \<open>updateRelayStates\<close>, on the store and the counter.\<close>

definition updateRelayStates_entry ::
    "timestamp \<Rightarrow> store \<times> nat \<Rightarrow> string \<times> relay_data \<Rightarrow> store \<times> nat" where
  "updateRelayStates_entry now acc entry =
    (let m = fst acc; activeCount = snd acc;
         relayId = fst entry; relay = snd entry;
         isActive = or_false (data_status relay)
     in (m(relayId \<mapsto>
            \<lparr>status = isActive,
             name = merged_name (data_name relay) (cached_name m relayId) relayId,
             lastChanged = Some now\<rparr>),
         if isActive then activeCount + 1 else activeCount))"

definition updateRelayStates :: "app \<Rightarrow> snapshot \<Rightarrow> timestamp \<Rightarrow> app" where
  "updateRelayStates s relayData now =
    (let r = foldl (updateRelayStates_entry now) (relayStates s, 0) relayData
     in s\<lparr>relayStates := fst r, activeCountText := show_nat (snd r) @ '' / 16''\<rparr>)"

text \<open>The \<open>relays\<close> listener of \<open>setupFirebaseListeners\<close> and the callback of
  \<open>loadRelayStates\<close>: \<open>if (relayData) this.updateRelayStates(relayData)\<close>; a path with no
  data delivers \<open>null\<close>.\<close>

definition on_relays_value :: "app \<Rightarrow> snapshot option \<Rightarrow> timestamp \<Rightarrow> app" where
  "on_relays_value s val now =
    (case val of None \<Rightarrow> s | Some relayData \<Rightarrow> updateRelayStates s relayData now)"

definition setRelay :: "app \<Rightarrow> string \<Rightarrow> bool \<Rightarrow> bool \<Rightarrow> app \<times> effect list" where
  "setRelay s relayId st ok =
    (if ok
     then (s, [RefSet (status_path relayId) st,
               ConsoleLog (relayId @ '' set to '' @ on_off st)])
     else (s, [RefSet (status_path relayId) st,
               ConsoleError (''Error setting '' @ relayId @ '':''),
               Notification (''Failed to control '' @ relayId) ''error'']))"

text \<open>\<open>!this.relayStates[relayId].status\<close>: with an own entry, the negation of its status.
  Without one, an inherited member is read, its \<open>status\<close> is \<open>undefined\<close> and \<open>!undefined\<close>
  is \<open>true\<close>. Otherwise the lookup is \<open>undefined\<close>, reading \<open>.status\<close> throws a \<open>TypeError\<close>
  and the promise of \<open>toggleRelay\<close> rejects before \<open>setRelay\<close> is called.\<close>

definition toggleRelay :: "app \<Rightarrow> string \<Rightarrow> bool \<Rightarrow> js_error + app \<times> effect list" where
  "toggleRelay s relayId ok =
    (case relayStates s relayId of
       Some r \<Rightarrow> Inr (setRelay s relayId (\<not> status r) ok)
     | None \<Rightarrow>
         if relayId \<in> set Object_prototype_names
         then Inr (setRelay s relayId True ok)
         else Inl TypeError)"

definition setAllRelays :: "app \<Rightarrow> bool \<Rightarrow> bool \<Rightarrow> app \<times> effect list" where
  "setAllRelays s st ok =
    (let updates = map (\<lambda>i. (status_path (relayId_of i), st)) channel_indices
     in if ok
        then (s, [RefUpdate updates,
                  Notification (''All relays turned '' @ on_off st) ''success''])
        else (s, [RefUpdate updates,
                  ConsoleError ''Error setting all relays:'',
                  Notification ''Failed to control all relays'' ''error'']))"

text \<open>\<open>this.relayStates[relayId]?.status || false\<close>; an inherited member has no
  \<open>status\<close>, so it reads as \<open>false\<close> like a missing entry.\<close>

definition cached_status :: "(string \<rightharpoonup> 'a relay_scheme) \<Rightarrow> string \<Rightarrow> bool" where
  "cached_status m relayId = (case m relayId of Some r \<Rightarrow> status r | None \<Rightarrow> False)"

definition toggleAllRelays :: "app \<Rightarrow> bool \<Rightarrow> app \<times> effect list" where
  "toggleAllRelays s ok =
    (let updates =
           map (\<lambda>i. (status_path (relayId_of i), \<not> cached_status (relayStates s) (relayId_of i)))
             channel_indices
     in if ok
        then (s, [RefUpdate updates, Notification ''All relays toggled'' ''success''])
        else (s, [RefUpdate updates,
                  ConsoleError ''Error toggling all relays:'',
                  Notification ''Failed to toggle all relays'' ''error'']))"

text \<open>\<open>loadRelayStates\<close> issues the one-time read; its callback is \<open>on_relays_value\<close>.\<close>

definition loadRelayStates :: "app \<Rightarrow> app \<times> effect list" where
  "loadRelayStates s =
    (s, [RefOnce (''home_automation/devices/'' @ DEVICE_ID @ ''/relays'')])"

text \<open>The \<open>online\<close> listener: \<open>this.deviceOnline = snapshot.val() || false\<close>.\<close>

definition on_online_value :: "app \<Rightarrow> bool option \<Rightarrow> app" where
  "on_online_value s val = s\<lparr>deviceOnline := or_false val\<rparr>"

text \<open>The \<open>last_update\<close> listener: a truthy number of seconds becomes a date in
  milliseconds; \<open>null\<close> and \<open>0\<close> are ignored.\<close>

definition on_last_update_value :: "app \<Rightarrow> nat option \<Rightarrow> app" where
  "on_last_update_value s val =
    (case val of
       None \<Rightarrow> s
     | Some secs \<Rightarrow> if secs = 0 then s else s\<lparr>lastUpdate := Some (secs * 1000)\<rparr>)"

subsection \<open>Sessions of \<^verbatim>\<open>js/app.js\<close>\<close>

text \<open>What can happen to the application object after its construction: a value arrives
  on one of the three subscriptions or for the one-time read, or the user issues an intent
  (with the outcome of its remote write).\<close>

datatype event =
    RelaysValue "snapshot option" timestamp
  | OnlineValue "bool option"
  | LastUpdateValue "nat option"
  | ToggleIntent string bool
  | SetAllIntent bool bool
  | ToggleAllIntent bool
  | LoadIntent

fun step :: "app \<Rightarrow> event \<Rightarrow> app \<times> effect list" where
  "step s (RelaysValue val now) = (on_relays_value s val now, [])"
| "step s (OnlineValue val) = (on_online_value s val, [])"
| "step s (LastUpdateValue val) = (on_last_update_value s val, [])"
| "step s (ToggleIntent relayId ok) =
    (case toggleRelay s relayId ok of Inl _ \<Rightarrow> (s, []) | Inr r \<Rightarrow> r)"
| "step s (SetAllIntent st ok) = setAllRelays s st ok"
| "step s (ToggleAllIntent ok) = toggleAllRelays s ok"
| "step s LoadIntent = loadRelayStates s"

fun run :: "app \<Rightarrow> event list \<Rightarrow> app" where
  "run s [] = s"
| "run s (e # es) = run (fst (step s e)) es"

text \<open>The identifiers a sequence of events delivers in its snapshots.\<close>

fun delivered_ids :: "event list \<Rightarrow> string set" where
  "delivered_ids [] = {}"
| "delivered_ids (RelaysValue (Some relayData) now # es) =
    set (map fst relayData) \<union> delivered_ids es"
| "delivered_ids (_ # es) = delivered_ids es"

text \<open>The number of channels of the store that are on, among the given identifiers.\<close>

definition on_count :: "(string \<rightharpoonup> 'a relay_scheme) \<Rightarrow> string list \<Rightarrow> nat" where
  "on_count m ids = length (filter (\<lambda>k. cached_status m k) ids)"

text \<open>The snapshot value \<open>{status: b}\<close>.\<close>

definition status_only :: "bool \<Rightarrow> relay_data" where
  "status_only b = \<lparr>data_status = Some b, data_name = None, data_power_usage = None\<rparr>"

subsection \<open>\<^verbatim>\<open>frontend/js/app.js\<close>\<close>

definition channel_indices_fe :: "nat list" where
  "channel_indices_fe = [1..<Suc RELAY_COUNT]"

definition initial_relay_fe :: "nat \<Rightarrow> relay_fe" where
  "initial_relay_fe i =
    \<lparr>status = False, name = relayName_of i, lastChanged = None, powerUsage = 0\<rparr>"

definition createRelayControls_fe :: "app_fe \<Rightarrow> app_fe" where
  "createRelayControls_fe s =
    s\<lparr>relayStates_fe :=
        foldl (\<lambda>m i. m(relayId_of i \<mapsto> initial_relay_fe i)) (relayStates_fe s)
          channel_indices_fe\<rparr>"

definition new_HomeAutomationApp_fe :: "string \<Rightarrow> app_fe" where
  "new_HomeAutomationApp_fe page_text =
    createRelayControls_fe
      \<lparr>relayStates_fe = Map.empty, deviceOnline_fe = False, apiConnected = False,
       lastUpdate_fe = None, activeCountText_fe = page_text\<rparr>"

definition updateRelayStates_entry_fe ::
    "timestamp \<Rightarrow> store_fe \<times> nat \<Rightarrow> string \<times> relay_data \<Rightarrow> store_fe \<times> nat" where
  "updateRelayStates_entry_fe now acc entry =
    (let m = fst acc; activeCount = snd acc;
         relayId = fst entry; data = snd entry;
         isActive = or_false (data_status data);
         usage = or_zero (data_power_usage data)
     in (m(relayId \<mapsto>
            \<lparr>status = isActive,
             name = merged_name (data_name data) (map_option name (m relayId)) relayId,
             lastChanged = Some now,
             powerUsage = usage\<rparr>),
         if isActive then activeCount + 1 else activeCount))"

definition updateRelayStates_fe :: "app_fe \<Rightarrow> snapshot \<Rightarrow> timestamp \<Rightarrow> app_fe" where
  "updateRelayStates_fe s relayData now =
    (let r = foldl (updateRelayStates_entry_fe now) (relayStates_fe s, 0) relayData
     in s\<lparr>relayStates_fe := fst r,
          activeCountText_fe := show_nat (snd r) @ ''/'' @ show_nat RELAY_COUNT\<rparr>)"

text \<open>The effects of one awaited remote call of the frontend and of what follows it:
  the notification of success, or the \<open>catch\<close> block. \<open>Utils.apiRequest\<close> logs its own
  failure before it rethrows.\<close>

definition api_call :: "string \<Rightarrow> string \<Rightarrow> bool option \<Rightarrow> bool \<Rightarrow> effect list" where
  "api_call endpoint method body ok =
    (if ok then [ApiRequest endpoint method body]
     else [ApiRequest endpoint method body,
           ConsoleError (''API request to '' @ endpoint @ '' failed:'')])"

text \<open>\<open>checkApiConnection\<close>: \<open>apiConnected\<close> records whether the request for \<open>/status\<close>
  resolved.\<close>

definition checkApiConnection :: "app_fe \<Rightarrow> bool \<Rightarrow> app_fe \<times> effect list" where
  "checkApiConnection s ok = (s\<lparr>apiConnected := ok\<rparr>, api_call ''/status'' ''GET'' None ok)"

text \<open>\<open>toggleRelay\<close>: the lookup and the negation stand before the \<open>try\<close>, so a missing
  entry rejects the promise with a \<open>TypeError\<close> and nothing is sent.\<close>

definition toggleRelay_fe :: "app_fe \<Rightarrow> string \<Rightarrow> bool \<Rightarrow> js_error + app_fe \<times> effect list" where
  "toggleRelay_fe s relayId ok =
    (case relayStates_fe s relayId of
       None \<Rightarrow> Inl TypeError
     | Some currentState \<Rightarrow>
         (let newStatus = \<not> status currentState;
              sent = (if apiConnected s
                      then api_call (RELAYS_ENDPOINT @ ''/'' @ relayId) ''PUT'' (Some newStatus) ok
                      else [RefSet (status_path relayId) newStatus])
          in if ok
             then Inr (s, sent @ [Notification (relayId @ '' turned '' @ on_off newStatus)
                                    ''success''])
             else Inr (s, sent @ [ConsoleError (''Error toggling '' @ relayId @ '':''),
                                  Notification (''Failed to control '' @ relayId) ''error''])))"

text \<open>The loop of the frontend's \<open>toggleAllRelays\<close>: \<open>!currentState.status\<close> throws when an
  entry is missing.\<close>

fun toggle_updates_fe :: "store_fe \<Rightarrow> nat list \<Rightarrow> js_error + (string \<times> bool) list" where
  "toggle_updates_fe m [] = Inr []"
| "toggle_updates_fe m (i # is) =
    (case m (relayId_of i) of
       None \<Rightarrow> Inl TypeError
     | Some currentState \<Rightarrow>
         (case toggle_updates_fe m is of
            Inl e \<Rightarrow> Inl e
          | Inr updates \<Rightarrow> Inr ((status_path (relayId_of i), \<not> status currentState) # updates)))"

text \<open>\<open>toggleAllRelays\<close>: the whole body is inside the \<open>try\<close>, so a \<open>TypeError\<close> of the
  loop is caught like a rejected call.\<close>

definition toggleAllRelays_fe :: "app_fe \<Rightarrow> bool \<Rightarrow> app_fe \<times> effect list" where
  "toggleAllRelays_fe s ok =
    (let failed = [ConsoleError ''Error toggling all relays:'',
                   Notification ''Failed to toggle all relays'' ''error''];
         succeeded = [Notification ''All relays toggled'' ''success'']
     in if apiConnected s
        then (s, api_call (RELAYS_ENDPOINT @ ''/toggle-all'') ''POST'' None ok
                 @ (if ok then succeeded else failed))
        else (case toggle_updates_fe (relayStates_fe s) channel_indices_fe of
                Inl _ \<Rightarrow> (s, failed)
              | Inr updates \<Rightarrow> (s, RefUpdate updates # (if ok then succeeded else failed))))"

subsection \<open>Invariant of the store\<close>

text \<open>Every entry carries a non-empty name: the default names are non-empty, and a
  snapshot writes the delivered name, the cached one or the \<open>Device\<close> fallback.\<close>

definition names_ok :: "(string \<rightharpoonup> 'a relay_scheme) \<Rightarrow> bool" where
  "names_ok m = (\<forall>k r. m k = Some r \<longrightarrow> name r \<noteq> [])"

section \<open>Properties\<close>

subsection \<open>Auxiliary facts\<close>


lemma distinct_relayIds: "distinct (map relayId_of channel_indices)"
  by (simp add: channel_indices_def relayId_of_def show_nat.simps digit_char_def upt_rec)


lemma relayName_of_nonempty: "relayName_of i \<noteq> []"
  by (simp add: relayName_of_def)

lemma device_fallback_name_nonempty: "device_fallback_name k \<noteq> []"
  by (simp add: device_fallback_name_def)

lemma merged_name_nonempty: "merged_name g c k \<noteq> []"
  by (simp add: merged_name_def device_fallback_name_nonempty split: option.splits)

lemma foldl_upd_other:
  "k \<notin> f ` set xs \<Longrightarrow> foldl (\<lambda>m i. m(f i \<mapsto> g i)) m xs k = m k"
  by (induction xs arbitrary: m) auto

lemma foldl_upd_hit:
  "distinct (map f xs) \<Longrightarrow> i \<in> set xs \<Longrightarrow> foldl (\<lambda>m i. m(f i \<mapsto> g i)) m xs (f i) = Some (g i)"
  by (induction xs arbitrary: m) (auto simp: foldl_upd_other)

lemma foldl_upd_dom:
  "dom (foldl (\<lambda>m i. m(f i \<mapsto> g i)) m xs) = dom m \<union> f ` set xs"
  by (induction xs arbitrary: m) auto

lemma cached_name_own: "m k = Some r \<Longrightarrow> cached_name m k = Some (name r)"
  by (simp add: cached_name_def)

lemma cached_name_upd_other: "k' \<noteq> k \<Longrightarrow> cached_name (m(k' \<mapsto> v)) k = cached_name m k"
  by (simp add: cached_name_def)

lemma entry_step:
  "updateRelayStates_entry now (m, c) (k, p) =
     (m(k \<mapsto> \<lparr>status = or_false (data_status p),
                name = merged_name (data_name p) (cached_name m k) k,
                lastChanged = Some now\<rparr>),
      if or_false (data_status p) then c + 1 else c)"
  by (simp add: updateRelayStates_entry_def)

lemma entries_other:
  "k \<notin> fst ` set d \<Longrightarrow> fst (foldl (updateRelayStates_entry now) (m, c) d) k = m k"
  by (induction d arbitrary: m c) (auto simp: entry_step)

lemma entries_count:
  "snd (foldl (updateRelayStates_entry now) (m, c) d)
     = c + length (filter (\<lambda>e. or_false (data_status (snd e))) d)"
  by (induction d arbitrary: m c) (auto simp: entry_step)

lemma entries_hit:
  "distinct (map fst d) \<Longrightarrow> (k, p) \<in> set d \<Longrightarrow>
   fst (foldl (updateRelayStates_entry now) (m, c) d) k
     = Some \<lparr>status = or_false (data_status p),
             name = merged_name (data_name p) (cached_name m k) k,
             lastChanged = Some now\<rparr>"
proof (induction d arbitrary: m c)
  case Nil
  then show ?case by simp
next
  case (Cons e d)
  obtain k' p' where e: "e = (k', p')" by (cases e)
  show ?case
  proof (cases "e = (k, p)")
    case True
    with Cons.prems have "k \<notin> fst ` set d" by force
    with True show ?thesis
      by (simp add: entry_step entries_other)
  next
    case False
    with Cons.prems have in_d: "(k, p) \<in> set d" and dist: "distinct (map fst d)"
      by auto
    from in_d have "k \<in> fst ` set d" by force
    with Cons.prems have ne: "fst e \<noteq> k" by auto
    define v where "v = \<lparr>status = or_false (data_status p'),
                           name = merged_name (data_name p') (cached_name m k') k',
                           lastChanged = Some now\<rparr>"
    define c' where "c' = (if or_false (data_status p') then c + 1 else c)"
    from ne e have cn: "cached_name (m(k' \<mapsto> v)) k = cached_name m k"
      by (simp add: cached_name_upd_other)
    have "fst (foldl (updateRelayStates_entry now) (m, c) (e # d)) k
            = fst (foldl (updateRelayStates_entry now) (m(k' \<mapsto> v), c') d) k"
      by (simp add: e entry_step v_def c'_def)
    also have "\<dots> = Some \<lparr>status = or_false (data_status p),
                           name = merged_name (data_name p) (cached_name (m(k' \<mapsto> v)) k) k,
                           lastChanged = Some now\<rparr>"
      by (rule Cons.IH [OF dist in_d])
    finally show ?thesis
      by (simp only: cn)
  qed
qed

lemma entries_dom:
  "dom (fst (foldl (updateRelayStates_entry now) (m, c) d)) = dom m \<union> fst ` set d"
proof (induction d arbitrary: m c)
  case Nil
  then show ?case by simp
next
  case (Cons e d)
  obtain k p where e: "e = (k, p)" by (cases e)
  have "dom (fst (foldl (updateRelayStates_entry now) (m, c) (e # d)))
          = dom (fst (updateRelayStates_entry now (m, c) (k, p))) \<union> fst ` set d"
    unfolding e using Cons.IH [of "fst (updateRelayStates_entry now (m, c) (k, p))"
        "snd (updateRelayStates_entry now (m, c) (k, p))"]
    by simp
  also have "dom (fst (updateRelayStates_entry now (m, c) (k, p))) = insert k (dom m)"
    unfolding entry_step by simp
  finally show ?case
    unfolding e by simp
qed

lemma entries_names_ok:
  "names_ok m \<Longrightarrow> names_ok (fst (foldl (updateRelayStates_entry now) (m, c) d))"
proof (induction d arbitrary: m c)
  case Nil
  then show ?case by simp
next
  case (Cons e d)
  obtain k p where e: "e = (k, p)" by (cases e)
  have "names_ok (fst (updateRelayStates_entry now (m, c) (k, p)))"
    using Cons.prems unfolding entry_step names_ok_def
    by (simp add: merged_name_nonempty)
  from Cons.IH [OF this, of "snd (updateRelayStates_entry now (m, c) (k, p))"]
  show ?case
    unfolding e by simp
qed


lemma inj_relayId: "inj_on relayId_of (set channel_indices)"
  using distinct_relayIds by (simp add: distinct_map)

lemma createRelayControls_hit:
  "i \<in> set channel_indices \<Longrightarrow>
   relayStates (createRelayControls s) (relayId_of i) = Some (initial_relay i)"
  by (simp add: createRelayControls_def foldl_upd_hit distinct_relayIds)

lemma createRelayControls_other:
  "k \<notin> relayId_of ` set channel_indices \<Longrightarrow>
   relayStates (createRelayControls s) k = relayStates s k"
  by (simp add: createRelayControls_def foldl_upd_other)

lemma createRelayControls_dom:
  "dom (relayStates (createRelayControls s)) = dom (relayStates s) \<union> relayId_of ` set channel_indices"
  by (simp add: createRelayControls_def foldl_upd_dom)

lemma names_ok_upd: "names_ok m \<Longrightarrow> name v \<noteq> [] \<Longrightarrow> names_ok (m(k \<mapsto> v))"
  by (simp add: names_ok_def)

lemma foldl_upd_names_ok:
  "names_ok m \<Longrightarrow> (\<And>i. name (g i) \<noteq> []) \<Longrightarrow> names_ok (foldl (\<lambda>m i. m(f i \<mapsto> g i)) m xs)"
  by (induction xs arbitrary: m) (simp_all add: names_ok_upd)

lemma createRelayControls_names_ok:
  "names_ok (relayStates s) \<Longrightarrow> names_ok (relayStates (createRelayControls s))"
  by (simp add: createRelayControls_def foldl_upd_names_ok initial_relay_def relayName_of_nonempty)

lemma new_app_names_ok: "names_ok (relayStates (new_HomeAutomationApp t))"
  unfolding new_HomeAutomationApp_def
  by (rule createRelayControls_names_ok) (simp add: names_ok_def)

lemma new_app_dom: "dom (relayStates (new_HomeAutomationApp t)) = relayId_of ` set channel_indices"
  by (simp add: new_HomeAutomationApp_def createRelayControls_dom)

lemma updateRelayStates_store:
  "relayStates (updateRelayStates s d now) = fst (foldl (updateRelayStates_entry now) (relayStates s, 0) d)"
  by (simp add: updateRelayStates_def Let_def)

lemma updateRelayStates_text:
  "activeCountText (updateRelayStates s d now)
    = show_nat (length (filter (\<lambda>e. or_false (data_status (snd e))) d)) @ '' / 16''"
  by (simp add: updateRelayStates_def Let_def entries_count)

lemma step_store_cases:
  "relayStates (fst (step s e)) = relayStates s \<or>
   (\<exists>d now. e = RelaysValue (Some d) now \<and> relayStates (fst (step s e)) = relayStates (updateRelayStates s d now))"
  by (cases e)
     (auto simp: on_relays_value_def on_online_value_def on_last_update_value_def
        toggleRelay_def setRelay_def setAllRelays_def toggleAllRelays_def loadRelayStates_def
        Let_def split: option.splits sum.splits if_splits)

lemma step_names_ok: "names_ok (relayStates s) \<Longrightarrow> names_ok (relayStates (fst (step s e)))"
  using step_store_cases [of s e] by (auto simp: updateRelayStates_store entries_names_ok)

lemma run_names_ok: "names_ok (relayStates s) \<Longrightarrow> names_ok (relayStates (run s es))"
  by (induction es arbitrary: s) (simp_all add: step_names_ok)

lemma step_dom:
  "dom (relayStates (fst (step s e))) = dom (relayStates s) \<union> delivered_ids [e]"
  by (cases e)
     (auto simp: on_relays_value_def on_online_value_def on_last_update_value_def
        toggleRelay_def setRelay_def setAllRelays_def toggleAllRelays_def loadRelayStates_def
        updateRelayStates_store entries_dom
        Let_def split: option.splits sum.splits if_splits)

lemma delivered_ids_Cons: "delivered_ids (e # es) = delivered_ids [e] \<union> delivered_ids es"
  by (induction "e # es" rule: delivered_ids.induct) auto

lemma run_dom:
  "dom (relayStates (run s es)) = dom (relayStates s) \<union> delivered_ids es"
proof (induction es arbitrary: s)
  case Nil
  then show ?case by simp
next
  case (Cons e es)
  have "dom (relayStates (run s (e # es))) = dom (relayStates (fst (step s e))) \<union> delivered_ids es"
    using Cons.IH by simp
  also have "\<dots> = dom (relayStates s) \<union> (delivered_ids [e] \<union> delivered_ids es)"
    by (simp add: step_dom Un_assoc)
  finally show ?case
    using delivered_ids_Cons [of e es] by simp
qed


lemma relay_3_index: "''relay_3'' = relayId_of 3"
  by (simp add: relayId_of_def show_nat.simps digit_char_def)

lemma three_in: "3 \<in> set channel_indices"
  by (simp add: channel_indices_def)

lemma new_app_relay_3:
  "relayStates (new_HomeAutomationApp t) ''relay_3'' =
     Some \<lparr>status = False, name = ''Bedroom AC'', lastChanged = None\<rparr>"
  unfolding relay_3_index new_HomeAutomationApp_def
  by (simp add: createRelayControls_hit three_in initial_relay_def relayName_of_def RELAY_NAMES_def)

lemma distinct_relayIds_fe: "distinct (map relayId_of channel_indices_fe)"
  using distinct_relayIds by (simp add: channel_indices_fe_def channel_indices_def RELAY_COUNT_def)

lemma channel_indices_fe_eq: "channel_indices_fe = channel_indices"
  by (simp add: channel_indices_fe_def channel_indices_def RELAY_COUNT_def)

lemma createRelayControls_fe_hit:
  "i \<in> set channel_indices_fe \<Longrightarrow>
   relayStates_fe (createRelayControls_fe s) (relayId_of i) = Some (initial_relay_fe i)"
  by (simp add: createRelayControls_fe_def foldl_upd_hit distinct_relayIds_fe)

lemma createRelayControls_fe_other:
  "k \<notin> relayId_of ` set channel_indices_fe \<Longrightarrow>
   relayStates_fe (createRelayControls_fe s) k = relayStates_fe s k"
  by (simp add: createRelayControls_fe_def foldl_upd_other)

lemma foldl_upd_idem:
  assumes "distinct (map f xs)"
  shows "foldl (\<lambda>m i. m(f i \<mapsto> g i)) (foldl (\<lambda>m i. m(f i \<mapsto> g i)) m xs) xs
           = foldl (\<lambda>m i. m(f i \<mapsto> g i)) m xs"
proof
  fix k
  show "foldl (\<lambda>m i. m(f i \<mapsto> g i)) (foldl (\<lambda>m i. m(f i \<mapsto> g i)) m xs) xs k
           = foldl (\<lambda>m i. m(f i \<mapsto> g i)) m xs k"
  proof (cases "k \<in> f ` set xs")
    case True
    then obtain i where "i \<in> set xs" "k = f i" by auto
    with assms show ?thesis by (simp add: foldl_upd_hit)
  next
    case False
    then show ?thesis by (simp add: foldl_upd_other)
  qed
qed

lemma createRelayControls_idem: "createRelayControls (createRelayControls s) = createRelayControls s"
  by (simp add: createRelayControls_def foldl_upd_idem distinct_relayIds)

lemma createRelayControls_fe_idem:
  "createRelayControls_fe (createRelayControls_fe s) = createRelayControls_fe s"
  by (simp add: createRelayControls_fe_def foldl_upd_idem distinct_relayIds_fe)

lemma relay_17_not_initial: "''relay_17'' \<notin> relayId_of ` set channel_indices"
  by (simp add: channel_indices_def relayId_of_def show_nat.simps digit_char_def upt_rec)

lemma toString_not_initial: "''toString'' \<notin> relayId_of ` set channel_indices"
  by (simp add: channel_indices_def relayId_of_def upt_rec)

lemma constructor_not_initial: "''constructor'' \<notin> relayId_of ` set channel_indices"
  by (simp add: channel_indices_def relayId_of_def upt_rec)

lemma card_initial_ids: "card (relayId_of ` set channel_indices) = 16"
proof -
  have "card (set (map relayId_of channel_indices)) = length (map relayId_of channel_indices)"
    using distinct_relayIds by (rule distinct_card)
  then show ?thesis by (simp add: channel_indices_def)
qed

lemma device_17: "device_fallback_name ''relay_17'' = ''Device 17''"
  by (simp add: device_fallback_name_def)

lemma entry_step_fe:
  "updateRelayStates_entry_fe now (m, c) (k, p) =
     (m(k \<mapsto> \<lparr>status = or_false (data_status p),
                name = merged_name (data_name p) (map_option name (m k)) k,
                lastChanged = Some now,
                powerUsage = or_zero (data_power_usage p)\<rparr>),
      if or_false (data_status p) then c + 1 else c)"
  by (simp add: updateRelayStates_entry_fe_def)

lemma entries_other_fe:
  "k \<notin> fst ` set d \<Longrightarrow> fst (foldl (updateRelayStates_entry_fe now) (m, c) d) k = m k"
  by (induction d arbitrary: m c) (auto simp: entry_step_fe)

lemma entries_count_fe:
  "snd (foldl (updateRelayStates_entry_fe now) (m, c) d)
     = c + length (filter (\<lambda>e. or_false (data_status (snd e))) d)"
  by (induction d arbitrary: m c) (auto simp: entry_step_fe)

lemma entries_hit_fe:
  "distinct (map fst d) \<Longrightarrow> (k, p) \<in> set d \<Longrightarrow>
   fst (foldl (updateRelayStates_entry_fe now) (m, c) d) k
     = Some \<lparr>status = or_false (data_status p),
             name = merged_name (data_name p) (map_option name (m k)) k,
             lastChanged = Some now,
             powerUsage = or_zero (data_power_usage p)\<rparr>"
proof (induction d arbitrary: m c)
  case Nil
  then show ?case by simp
next
  case (Cons e d)
  obtain k' p' where e: "e = (k', p')" by (cases e)
  show ?case
  proof (cases "e = (k, p)")
    case True
    with Cons.prems have "k \<notin> fst ` set d" by force
    with True show ?thesis
      by (simp add: entry_step_fe entries_other_fe)
  next
    case False
    with Cons.prems have in_d: "(k, p) \<in> set d" and dist: "distinct (map fst d)"
      by auto
    from in_d have "k \<in> fst ` set d" by force
    with Cons.prems have ne: "fst e \<noteq> k" by auto
    show ?thesis
      using Cons.IH [OF dist in_d] ne e
      by (simp add: entry_step_fe)
  qed
qed

lemma updateRelayStates_fe_store:
  "relayStates_fe (updateRelayStates_fe s d now)
     = fst (foldl (updateRelayStates_entry_fe now) (relayStates_fe s, 0) d)"
  by (simp add: updateRelayStates_fe_def Let_def)

lemma sixteen_text: "show_nat RELAY_COUNT = ''16''"
  by (simp add: RELAY_COUNT_def show_nat.simps digit_char_def)

lemma updateRelayStates_fe_text:
  "activeCountText_fe (updateRelayStates_fe s d now)
    = show_nat (length (filter (\<lambda>e. or_false (data_status (snd e))) d)) @ ''/16''"
  by (simp add: updateRelayStates_fe_def Let_def entries_count_fe sixteen_text)

lemma on_count_of_entries:
  assumes "\<And>k p. (k, p) \<in> set d \<Longrightarrow> cached_status m k = or_false (data_status p)"
  shows "on_count m (map fst d) = length (filter (\<lambda>e. or_false (data_status (snd e))) d)"
proof -
  have "filter (\<lambda>e. cached_status m (fst e)) d = filter (\<lambda>e. or_false (data_status (snd e))) d"
    by (rule filter_cong) (auto simp: assms)
  then show ?thesis
    by (simp add: on_count_def filter_map comp_def)
qed

lemma initial_ids_literal:
  "map relayId_of channel_indices =
    [''relay_1'', ''relay_2'', ''relay_3'', ''relay_4'', ''relay_5'', ''relay_6'', ''relay_7'',
     ''relay_8'', ''relay_9'', ''relay_10'', ''relay_11'', ''relay_12'', ''relay_13'',
     ''relay_14'', ''relay_15'', ''relay_16'']"
  by (simp add: channel_indices_def relayId_of_def show_nat.simps digit_char_def upt_rec)

lemma new_app_all_off: "cached_status (relayStates (new_HomeAutomationApp t)) k = False"
proof (cases "k \<in> relayId_of ` set channel_indices")
  case True
  then obtain i where "i \<in> set channel_indices" "k = relayId_of i" by auto
  then show ?thesis
    by (simp add: new_HomeAutomationApp_def createRelayControls_hit cached_status_def
        initial_relay_def)
next
  case False
  then show ?thesis
    by (simp add: new_HomeAutomationApp_def createRelayControls_other cached_status_def)
qed

lemma new_app_fe_dom:
  "dom (relayStates_fe (new_HomeAutomationApp_fe t)) = relayId_of ` set channel_indices"
  by (simp add: new_HomeAutomationApp_fe_def createRelayControls_fe_def foldl_upd_dom
      channel_indices_fe_eq)

lemma new_app_fe_relay_3:
  "relayStates_fe (new_HomeAutomationApp_fe t) ''relay_3'' =
     Some \<lparr>status = False, name = ''Bedroom AC'', lastChanged = None, powerUsage = 0\<rparr>"
  unfolding relay_3_index new_HomeAutomationApp_fe_def
  by (simp add: createRelayControls_fe_hit three_in channel_indices_fe_eq initial_relay_fe_def
      relayName_of_def RELAY_NAMES_def)

lemma new_app_fe_not_connected: "\<not> apiConnected (new_HomeAutomationApp_fe t)"
  by (simp add: new_HomeAutomationApp_fe_def createRelayControls_fe_def)

lemma status_path_inject: "status_path a = status_path b \<Longrightarrow> a = b"
  by (simp add: status_path_def)

lemma distinct_status_paths:
  "distinct (map (\<lambda>i. status_path (relayId_of i)) channel_indices)"
proof -
  have "inj_on status_path (set (map relayId_of channel_indices))"
    by (rule inj_onI) (rule status_path_inject)
  with distinct_relayIds have "distinct (map status_path (map relayId_of channel_indices))"
    by (simp only: distinct_map)
  then show ?thesis by (simp add: comp_def)
qed

lemma map_of_tabulate:
  "distinct (map f xs) \<Longrightarrow> i \<in> set xs \<Longrightarrow> map_of (map (\<lambda>i. (f i, g i)) xs) (f i) = Some (g i)"
  by (induction xs) (auto simp: image_iff)

lemma toggle_updates_fe_present:
  "\<forall>i \<in> set xs. m (relayId_of i) \<noteq> None \<Longrightarrow>
   toggle_updates_fe m xs
     = Inr (map (\<lambda>i. (status_path (relayId_of i), \<not> cached_status m (relayId_of i))) xs)"
  by (induction xs) (auto simp: cached_status_def)

lemma inverted_updates:
  assumes "updates = map (\<lambda>i. (status_path (relayId_of i), \<not> cached_status m (relayId_of i)))
                       channel_indices"
  shows "map fst updates = map (\<lambda>i. status_path (relayId_of i)) channel_indices
       \<and> distinct (map fst updates) \<and> length updates = 16
       \<and> (\<forall>i \<in> set channel_indices. \<forall>r. m (relayId_of i) = Some r \<longrightarrow>
             map_of updates (status_path (relayId_of i)) = Some (\<not> status r))"
proof -
  have f: "map fst updates = map (\<lambda>i. status_path (relayId_of i)) channel_indices"
    by (simp add: assms comp_def)
  have l: "length updates = 16"
    by (simp add: assms channel_indices_def)
  have "map_of updates (status_path (relayId_of i)) = Some (\<not> status r)"
    if "i \<in> set channel_indices" "m (relayId_of i) = Some r" for i r
    unfolding assms
    using map_of_tabulate [OF distinct_status_paths that(1),
        of "\<lambda>i. \<not> cached_status m (relayId_of i)"] that(2)
    by (simp add: cached_status_def)
  with f l distinct_status_paths show ?thesis by simp
qed

subsection \<open>Applying a snapshot\<close>

text \<open>
  Claim C1, as the code has it. \<open>updateRelayStates\<close> writes \<open>lastChanged: new Date()\<close> for
  every entry of the snapshot, with no comparison against the cached state. So for every
  channel that a snapshot mentions, the entry afterwards holds the delivered state and the
  time of this application, and delivering the same snapshot again gives the same state
  and the time of the second application.
\<close>

theorem snapshot_entry_stamps_unconditionally:
  assumes "distinct (map fst relayData)" and "(relayId, d) \<in> set relayData"
  shows "map_option status (relayStates (updateRelayStates s relayData now) relayId)
           = Some (or_false (data_status d))
       \<and> map_option lastChanged (relayStates (updateRelayStates s relayData now) relayId)
           = Some (Some now)
       \<and> map_option status
           (relayStates (updateRelayStates (updateRelayStates s relayData now) relayData later)
              relayId)
           = Some (or_false (data_status d))
       \<and> map_option lastChanged
           (relayStates (updateRelayStates (updateRelayStates s relayData now) relayData later)
              relayId)
           = Some (Some later)"
  using assms by (simp add: updateRelayStates_store entries_hit)

theorem snapshot_entry_stamps_unconditionally_witness:
  "distinct (map fst [(''relay_3'', status_only True)])
   \<and> (''relay_3'', status_only True) \<in> set [(''relay_3'', status_only True)]
   \<and> map_option lastChanged
        (relayStates
           (updateRelayStates
              (updateRelayStates (new_HomeAutomationApp ''0 / 16'')
                 [(''relay_3'', status_only True)] 100)
              [(''relay_3'', status_only True)] 200)
           ''relay_3'')
       = Some (Some 200)"
  using snapshot_entry_stamps_unconditionally
    [of "[(''relay_3'', status_only True)]" "''relay_3''" "status_only True"
        "new_HomeAutomationApp ''0 / 16''" 100 200]
  by simp

text \<open>
  Claim C1, as the specification words it, fails: the timestamp is meant to move only when
  the delivered state differs from the recorded one. Channel \<open>relay_3\<close> is switched on by
  a snapshot at time 100; the same snapshot delivered again at time 200 leaves the state
  on and moves the timestamp from 100 to 200.
\<close>

theorem redelivered_snapshot_restamps:
  "map_option status
     (relayStates
        (updateRelayStates (new_HomeAutomationApp ''0 / 16'')
           [(''relay_3'', status_only True)] 100)
        ''relay_3'') = Some True
   \<and> map_option lastChanged
     (relayStates
        (updateRelayStates (new_HomeAutomationApp ''0 / 16'')
           [(''relay_3'', status_only True)] 100)
        ''relay_3'') = Some (Some 100)
   \<and> map_option status
     (relayStates
        (updateRelayStates
           (updateRelayStates (new_HomeAutomationApp ''0 / 16'')
              [(''relay_3'', status_only True)] 100)
           [(''relay_3'', status_only True)] 200)
        ''relay_3'') = Some True
   \<and> map_option lastChanged
     (relayStates
        (updateRelayStates
           (updateRelayStates (new_HomeAutomationApp ''0 / 16'')
              [(''relay_3'', status_only True)] 100)
           [(''relay_3'', status_only True)] 200)
        ''relay_3'') = Some (Some 200)"
  by (simp add: updateRelayStates_store entry_step status_only_def or_false_def)

text \<open>
  Claim C7. In any state that a session reaches, applying a snapshot leaves every entry
  whose identifier the snapshot does not mention as it was (state, name and timestamp);
  and for a mentioned channel that has an entry, the name afterwards is the delivered name
  when the snapshot provides a non-empty one, and the cached name otherwise.
\<close>

theorem snapshot_frame_and_name:
  "(relayId \<notin> fst ` set relayData \<longrightarrow>
      relayStates (updateRelayStates (run (new_HomeAutomationApp t) es) relayData now) relayId
        = relayStates (run (new_HomeAutomationApp t) es) relayId)
   \<and> (\<forall>d r. distinct (map fst relayData) \<and> (relayId, d) \<in> set relayData
          \<and> relayStates (run (new_HomeAutomationApp t) es) relayId = Some r \<longrightarrow>
        map_option name
          (relayStates (updateRelayStates (run (new_HomeAutomationApp t) es) relayData now)
             relayId)
          = Some (case data_name d of
                    Some n \<Rightarrow> if n \<noteq> [] then n else name r
                  | None \<Rightarrow> name r))"
proof -
  have ok: "names_ok (relayStates (run (new_HomeAutomationApp t) es))"
    by (simp add: run_names_ok new_app_names_ok)
  have "map_option name
          (relayStates (updateRelayStates (run (new_HomeAutomationApp t) es) relayData now)
             relayId)
          = Some (case data_name d of
                    Some n \<Rightarrow> if n \<noteq> [] then n else name r
                  | None \<Rightarrow> name r)"
    if "distinct (map fst relayData)" "(relayId, d) \<in> set relayData"
       "relayStates (run (new_HomeAutomationApp t) es) relayId = Some r" for d r
  proof -
    from ok that(3) have "name r \<noteq> []" by (auto simp: names_ok_def)
    with that show ?thesis
      by (simp add: updateRelayStates_store entries_hit merged_name_def cached_name_def split: option.splits)
  qed
  then show ?thesis
    by (simp add: updateRelayStates_store entries_other)
qed

theorem snapshot_frame_and_name_witness:
  "''relay_4'' \<notin> fst ` set [(''relay_3'', status_only False)]
   \<and> relayStates
        (updateRelayStates
           (run (new_HomeAutomationApp ''0 / 16'')
              [RelaysValue (Some [(''relay_3'', \<lparr>data_status = Some True,
                 data_name = Some ''Lamp'', data_power_usage = None\<rparr>)]) 50])
           [(''relay_3'', status_only False)] 100)
        ''relay_4''
      = relayStates
          (run (new_HomeAutomationApp ''0 / 16'')
             [RelaysValue (Some [(''relay_3'', \<lparr>data_status = Some True,
                data_name = Some ''Lamp'', data_power_usage = None\<rparr>)]) 50])
          ''relay_4''
   \<and> distinct (map fst [(''relay_3'', status_only False)])
   \<and> (''relay_3'', status_only False) \<in> set [(''relay_3'', status_only False)]
   \<and> relayStates
        (run (new_HomeAutomationApp ''0 / 16'')
           [RelaysValue (Some [(''relay_3'', \<lparr>data_status = Some True,
              data_name = Some ''Lamp'', data_power_usage = None\<rparr>)]) 50])
        ''relay_3''
      = Some \<lparr>status = True, name = ''Lamp'', lastChanged = Some 50\<rparr>
   \<and> map_option name
        (relayStates
           (updateRelayStates
              (run (new_HomeAutomationApp ''0 / 16'')
                 [RelaysValue (Some [(''relay_3'', \<lparr>data_status = Some True,
                    data_name = Some ''Lamp'', data_power_usage = None\<rparr>)]) 50])
              [(''relay_3'', status_only False)] 100)
           ''relay_3'')
      = Some ''Lamp''"
proof -
  have h: "relayStates
        (run (new_HomeAutomationApp ''0 / 16'')
           [RelaysValue (Some [(''relay_3'', \<lparr>data_status = Some True,
              data_name = Some ''Lamp'', data_power_usage = None\<rparr>)]) 50])
        ''relay_3''
      = Some \<lparr>status = True, name = ''Lamp'', lastChanged = Some 50\<rparr>"
    by (simp add: on_relays_value_def updateRelayStates_store entry_step or_false_def
        merged_name_def cached_name_def)
  note f = snapshot_frame_and_name
    [of "''relay_4''" "[(''relay_3'', status_only False)]" "''0 / 16''"
        "[RelaysValue (Some [(''relay_3'', \<lparr>data_status = Some True,
              data_name = Some ''Lamp'', data_power_usage = None\<rparr>)]) 50]" 100]
  note n = snapshot_frame_and_name
    [of "''relay_3''" "[(''relay_3'', status_only False)]" "''0 / 16''"
        "[RelaysValue (Some [(''relay_3'', \<lparr>data_status = Some True,
              data_name = Some ''Lamp'', data_power_usage = None\<rparr>)]) 50]" 100]
  have a: "''relay_4'' \<notin> fst ` set [(''relay_3'', status_only False)]" by simp
  have b: "distinct (map fst [(''relay_3'', status_only False)])" by simp
  have c: "(''relay_3'', status_only False) \<in> set [(''relay_3'', status_only False)]" by simp
  have d: "data_name (status_only False) = None" by (simp add: status_only_def)
  from n b c h d have "map_option name
        (relayStates
           (updateRelayStates
              (run (new_HomeAutomationApp ''0 / 16'')
                 [RelaysValue (Some [(''relay_3'', \<lparr>data_status = Some True,
                    data_name = Some ''Lamp'', data_power_usage = None\<rparr>)]) 50])
              [(''relay_3'', status_only False)] 100)
           ''relay_3'')
      = Some ''Lamp''"
    by fastforce
  with f a b c h show ?thesis by blast
qed

text \<open>
  Claim C9, as the code has it. \<open>updateRelayStates\<close> counts inside its loop over the
  snapshot, so the text it writes to the \<open>active-count\<close> element shows the number of
  entries of the snapshot just applied whose status is on; this is the number of channels
  mentioned in the snapshot that are on in the store afterwards. Both variants agree.
\<close>

theorem active_count_counts_snapshot:
  "activeCountText (updateRelayStates s relayData now)
     = show_nat (length (filter (\<lambda>e. or_false (data_status (snd e))) relayData)) @ '' / 16''
   \<and> activeCountText_fe (updateRelayStates_fe s' relayData now)
     = show_nat (length (filter (\<lambda>e. or_false (data_status (snd e))) relayData)) @ ''/16''
   \<and> (distinct (map fst relayData) \<longrightarrow>
        on_count (relayStates (updateRelayStates s relayData now)) (map fst relayData)
          = length (filter (\<lambda>e. or_false (data_status (snd e))) relayData)
        \<and> on_count (relayStates_fe (updateRelayStates_fe s' relayData now)) (map fst relayData)
          = length (filter (\<lambda>e. or_false (data_status (snd e))) relayData))"
proof -
  have "on_count (relayStates (updateRelayStates s relayData now)) (map fst relayData)
          = length (filter (\<lambda>e. or_false (data_status (snd e))) relayData)"
    if "distinct (map fst relayData)"
    using that
    by (intro on_count_of_entries)
       (simp add: updateRelayStates_store entries_hit cached_status_def)
  moreover
  have "on_count (relayStates_fe (updateRelayStates_fe s' relayData now)) (map fst relayData)
          = length (filter (\<lambda>e. or_false (data_status (snd e))) relayData)"
    if "distinct (map fst relayData)"
    using that
    by (intro on_count_of_entries)
       (simp add: updateRelayStates_fe_store entries_hit_fe cached_status_def)
  ultimately show ?thesis
    by (simp add: updateRelayStates_text updateRelayStates_fe_text)
qed

theorem active_count_counts_snapshot_witness:
  "distinct (map fst [(''relay_1'', status_only True), (''relay_2'', status_only False)])
   \<and> on_count
        (relayStates
           (updateRelayStates (new_HomeAutomationApp ''0 / 16'')
              [(''relay_1'', status_only True), (''relay_2'', status_only False)] 100))
        (map fst [(''relay_1'', status_only True), (''relay_2'', status_only False)])
      = 1
   \<and> activeCountText
        (updateRelayStates (new_HomeAutomationApp ''0 / 16'')
           [(''relay_1'', status_only True), (''relay_2'', status_only False)] 100)
      = ''1 / 16''"
  using active_count_counts_snapshot
    [of "new_HomeAutomationApp ''0 / 16''"
        "[(''relay_1'', status_only True), (''relay_2'', status_only False)]" 100
        "new_HomeAutomationApp_fe ''0/16''"]
  by (simp add: status_only_def or_false_def show_nat.simps digit_char_def)

text \<open>
  Claim C9, as the specification words it, fails: the count is meant to cover the whole
  store. After a snapshot has switched \<open>relay_1\<close> and \<open>relay_2\<close> on, a snapshot that
  mentions only \<open>relay_2\<close> makes the display show 1, while two of the 16 channels of the
  store are on.
\<close>

theorem active_count_misses_unmentioned_channel:
  "activeCountText
     (updateRelayStates
        (updateRelayStates (new_HomeAutomationApp ''0 / 16'')
           [(''relay_1'', status_only True), (''relay_2'', status_only True)] 100)
        [(''relay_2'', status_only True)] 200)
    = ''1 / 16''
   \<and> on_count
       (relayStates
          (updateRelayStates
             (updateRelayStates (new_HomeAutomationApp ''0 / 16'')
                [(''relay_1'', status_only True), (''relay_2'', status_only True)] 100)
             [(''relay_2'', status_only True)] 200))
       (map relayId_of channel_indices)
    = 2"
proof -
  have c: "cached_status
       (relayStates
          (updateRelayStates
             (updateRelayStates (new_HomeAutomationApp ''0 / 16'')
                [(''relay_1'', status_only True), (''relay_2'', status_only True)] 100)
             [(''relay_2'', status_only True)] 200)) k
      = (k = ''relay_1'' \<or> k = ''relay_2'')" for k
    using new_app_all_off [of "''0 / 16''" k]
    by (simp add: updateRelayStates_store entry_step cached_status_def status_only_def
        or_false_def)
  have "on_count
       (relayStates
          (updateRelayStates
             (updateRelayStates (new_HomeAutomationApp ''0 / 16'')
                [(''relay_1'', status_only True), (''relay_2'', status_only True)] 100)
             [(''relay_2'', status_only True)] 200))
       (map relayId_of channel_indices)
    = 2"
    unfolding on_count_def c initial_ids_literal by simp
  then show ?thesis
    by (simp add: updateRelayStates_text status_only_def or_false_def show_nat.simps
        digit_char_def)
qed

subsection \<open>Intents\<close>

text \<open>
  Claim C4. A toggle of a channel that has an entry makes exactly one outgoing write,
  \<open>set\<close> on that channel's status path, carrying the negation of the cached status; no
  read is made. For a channel cached as on the written value is \<open>false\<close>.
\<close>

theorem toggle_writes_negated_cache:
  assumes "relayStates s relayId = Some r"
  shows "\<exists>fx. toggleRelay s relayId ok = Inr (s, fx)
           \<and> filter is_write fx = [RefSet (status_path relayId) (\<not> status r)]
           \<and> filter is_read fx = []
           \<and> (status r \<longrightarrow> filter is_write fx = [RefSet (status_path relayId) False])"
  using assms by (simp add: toggleRelay_def setRelay_def)

theorem toggle_writes_negated_cache_witness:
  "relayStates (updateRelayStates (new_HomeAutomationApp ''0 / 16'')
      [(''relay_3'', status_only True)] 100) ''relay_3''
     = Some \<lparr>status = True, name = ''Bedroom AC'', lastChanged = Some 100\<rparr>
   \<and> status \<lparr>status = True, name = ''Bedroom AC'', lastChanged = Some 100\<rparr>
   \<and> (\<exists>fx. toggleRelay
          (updateRelayStates (new_HomeAutomationApp ''0 / 16'')
             [(''relay_3'', status_only True)] 100) ''relay_3'' True
         = Inr (updateRelayStates (new_HomeAutomationApp ''0 / 16'')
                  [(''relay_3'', status_only True)] 100, fx)
        \<and> filter is_write fx
           = [RefSet ''home_automation/devices/pico_w_001/relays/relay_3/status'' False])"
proof -
  have h: "relayStates (updateRelayStates (new_HomeAutomationApp ''0 / 16'')
      [(''relay_3'', status_only True)] 100) ''relay_3''
     = Some \<lparr>status = True, name = ''Bedroom AC'', lastChanged = Some 100\<rparr>"
    by (simp add: updateRelayStates_store entry_step status_only_def or_false_def
        new_app_relay_3 merged_name_def cached_name_def)
  show ?thesis
    using h toggle_writes_negated_cache [OF h, of True]
    by (auto simp: status_path_def DEVICE_ID_def)
qed

text \<open>
  Claim C6. When the remote write of an intent rejects (\<open>ok = False\<close>), the application
  object after the call is the one before it, so the store is the same entry for entry;
  the effects contain the one write that was attempted and no other (nothing is retried
  or queued), and an error notification.
\<close>

theorem rejected_write_keeps_store:
  "fst (setRelay s relayId st False) = s
   \<and> length (filter is_write (snd (setRelay s relayId st False))) = 1
   \<and> Notification (''Failed to control '' @ relayId) ''error''
        \<in> set (snd (setRelay s relayId st False))
   \<and> (\<forall>r. relayStates s relayId = Some r \<longrightarrow>
         (\<exists>fx. toggleRelay s relayId False = Inr (s, fx)
            \<and> length (filter is_write fx) = 1
            \<and> Notification (''Failed to control '' @ relayId) ''error'' \<in> set fx))
   \<and> fst (setAllRelays s st False) = s
   \<and> length (filter is_write (snd (setAllRelays s st False))) = 1
   \<and> Notification ''Failed to control all relays'' ''error''
        \<in> set (snd (setAllRelays s st False))
   \<and> fst (toggleAllRelays s False) = s
   \<and> length (filter is_write (snd (toggleAllRelays s False))) = 1
   \<and> Notification ''Failed to toggle all relays'' ''error''
        \<in> set (snd (toggleAllRelays s False))"
  by (simp add: toggleRelay_def setRelay_def setAllRelays_def toggleAllRelays_def Let_def)

theorem rejected_write_keeps_store_witness:
  "relayStates (new_HomeAutomationApp ''0 / 16'') ''relay_3''
     = Some \<lparr>status = False, name = ''Bedroom AC'', lastChanged = None\<rparr>
   \<and> (\<exists>fx. toggleRelay (new_HomeAutomationApp ''0 / 16'') ''relay_3'' False
              = Inr (new_HomeAutomationApp ''0 / 16'', fx)
         \<and> length (filter is_write fx) = 1
         \<and> Notification ''Failed to control relay_3'' ''error'' \<in> set fx)"
  using rejected_write_keeps_store [of "new_HomeAutomationApp ''0 / 16''" "''relay_3''" True]
  by (simp add: new_app_relay_3)

text \<open>
  Claim C8. No intent changes the application object, whether its write resolves or
  rejects; and whenever an event of a session changes the store, that event is a value
  with data arriving for the \<open>relays\<close> path, applied by \<open>updateRelayStates\<close>.
\<close>

theorem store_changes_only_on_snapshot:
  "fst (setRelay s relayId st ok) = s
   \<and> (\<forall>r. toggleRelay s relayId ok = Inr r \<longrightarrow> fst r = s)
   \<and> fst (setAllRelays s st ok) = s
   \<and> fst (toggleAllRelays s ok) = s
   \<and> (relayStates (fst (step s e)) \<noteq> relayStates s \<longrightarrow>
        (\<exists>relayData now. e = RelaysValue (Some relayData) now
           \<and> fst (step s e) = updateRelayStates s relayData now))"
proof -
  have "relayStates (fst (step s e)) \<noteq> relayStates s \<longrightarrow>
        (\<exists>relayData now. e = RelaysValue (Some relayData) now
           \<and> fst (step s e) = updateRelayStates s relayData now)"
    by (cases e)
       (auto simp: on_relays_value_def on_online_value_def on_last_update_value_def
          toggleRelay_def setRelay_def setAllRelays_def toggleAllRelays_def loadRelayStates_def
          Let_def split: option.splits sum.splits if_splits)
  moreover have "fst (setRelay s relayId st ok) = s"
    by (simp add: setRelay_def)
  moreover have "\<forall>r. toggleRelay s relayId ok = Inr r \<longrightarrow> fst r = s"
    by (auto simp: toggleRelay_def setRelay_def split: option.splits if_splits)
  moreover have "fst (setAllRelays s st ok) = s"
    by (simp add: setAllRelays_def Let_def)
  moreover have "fst (toggleAllRelays s ok) = s"
    by (simp add: toggleAllRelays_def Let_def)
  ultimately show ?thesis by blast
qed

theorem store_changes_only_on_snapshot_witness:
  "toggleRelay (new_HomeAutomationApp ''0 / 16'') ''relay_3'' True
     = Inr (setRelay (new_HomeAutomationApp ''0 / 16'') ''relay_3'' True True)
   \<and> fst (setRelay (new_HomeAutomationApp ''0 / 16'') ''relay_3'' True True)
       = new_HomeAutomationApp ''0 / 16''
   \<and> relayStates (fst (step (new_HomeAutomationApp ''0 / 16'')
          (RelaysValue (Some [(''relay_3'', status_only True)]) 100)))
       \<noteq> relayStates (new_HomeAutomationApp ''0 / 16'')
   \<and> (\<exists>relayData now.
         RelaysValue (Some [(''relay_3'', status_only True)]) 100
           = RelaysValue (Some relayData) now
         \<and> fst (step (new_HomeAutomationApp ''0 / 16'')
                  (RelaysValue (Some [(''relay_3'', status_only True)]) 100))
             = updateRelayStates (new_HomeAutomationApp ''0 / 16'') relayData now)"
proof -
  have t: "toggleRelay (new_HomeAutomationApp ''0 / 16'') ''relay_3'' True
     = Inr (setRelay (new_HomeAutomationApp ''0 / 16'') ''relay_3'' True True)"
    by (simp add: toggleRelay_def new_app_relay_3)
  have "relayStates (fst (step (new_HomeAutomationApp ''0 / 16'')
          (RelaysValue (Some [(''relay_3'', status_only True)]) 100))) ''relay_3''
       \<noteq> relayStates (new_HomeAutomationApp ''0 / 16'') ''relay_3''"
    by (simp add: on_relays_value_def updateRelayStates_store entry_step new_app_relay_3)
  then have d: "relayStates (fst (step (new_HomeAutomationApp ''0 / 16'')
          (RelaysValue (Some [(''relay_3'', status_only True)]) 100)))
       \<noteq> relayStates (new_HomeAutomationApp ''0 / 16'')"
    by metis
  show ?thesis
    using t d store_changes_only_on_snapshot
      [of "new_HomeAutomationApp ''0 / 16''" "''relay_3''" True True
          "RelaysValue (Some [(''relay_3'', status_only True)]) 100"]
    by simp
qed

subsection \<open>Initialisation\<close>

text \<open>
  Claim C3, as the code has it. \<open>createRelayControls\<close> assigns the default entry (off,
  default name, no timestamp) to each of the 16 channels whatever the store held, and keeps
  the entries under other identifiers; calling it twice in a row gives what calling it
  once gives. This holds for both variants of the application.
\<close>

theorem reinitialisation_resets_every_channel:
  "(\<forall>i \<in> set channel_indices.
      relayStates (createRelayControls s) (relayId_of i)
        = Some \<lparr>status = False, name = relayName_of i, lastChanged = None\<rparr>)
   \<and> (\<forall>k. k \<notin> relayId_of ` set channel_indices \<longrightarrow>
         relayStates (createRelayControls s) k = relayStates s k)
   \<and> createRelayControls (createRelayControls s) = createRelayControls s
   \<and> (\<forall>i \<in> set channel_indices_fe.
      relayStates_fe (createRelayControls_fe s') (relayId_of i)
        = Some \<lparr>status = False, name = relayName_of i, lastChanged = None, powerUsage = 0\<rparr>)
   \<and> (\<forall>k. k \<notin> relayId_of ` set channel_indices_fe \<longrightarrow>
         relayStates_fe (createRelayControls_fe s') k = relayStates_fe s' k)
   \<and> createRelayControls_fe (createRelayControls_fe s') = createRelayControls_fe s'"
  using createRelayControls_hit [of _ s] createRelayControls_fe_hit [of _ s']
  by (simp add: createRelayControls_other createRelayControls_fe_other
      createRelayControls_idem createRelayControls_fe_idem initial_relay_def initial_relay_fe_def)

theorem reinitialisation_resets_every_channel_witness:
  "3 \<in> set channel_indices
   \<and> relayStates
        (createRelayControls
           (updateRelayStates (new_HomeAutomationApp ''0 / 16'')
              [(''relay_3'', status_only True)] 100))
        (relayId_of 3)
      = Some \<lparr>status = False, name = relayName_of 3, lastChanged = None\<rparr>
   \<and> ''relay_17'' \<notin> relayId_of ` set channel_indices
   \<and> relayStates
        (createRelayControls
           (updateRelayStates (new_HomeAutomationApp ''0 / 16'')
              [(''relay_17'', status_only True)] 100))
        ''relay_17''
      = relayStates
          (updateRelayStates (new_HomeAutomationApp ''0 / 16'')
             [(''relay_17'', status_only True)] 100)
          ''relay_17''
   \<and> 3 \<in> set channel_indices_fe
   \<and> relayStates_fe (createRelayControls_fe (new_HomeAutomationApp_fe ''0/16'')) (relayId_of 3)
      = Some \<lparr>status = False, name = relayName_of 3, lastChanged = None, powerUsage = 0\<rparr>
   \<and> ''relay_17'' \<notin> relayId_of ` set channel_indices_fe
   \<and> relayStates_fe (createRelayControls_fe (new_HomeAutomationApp_fe ''0/16'')) ''relay_17''
      = relayStates_fe (new_HomeAutomationApp_fe ''0/16'') ''relay_17''"
proof -
  note r = reinitialisation_resets_every_channel
    [of "updateRelayStates (new_HomeAutomationApp ''0 / 16'') [(''relay_3'', status_only True)] 100"
        "new_HomeAutomationApp_fe ''0/16''"]
  note r' = reinitialisation_resets_every_channel
    [of "updateRelayStates (new_HomeAutomationApp ''0 / 16'') [(''relay_17'', status_only True)] 100"
        "new_HomeAutomationApp_fe ''0/16''"]
  have a: "3 \<in> set channel_indices" by (rule three_in)
  have b: "3 \<in> set channel_indices_fe" using a by (simp add: channel_indices_fe_eq)
  have c: "''relay_17'' \<notin> relayId_of ` set channel_indices" by (rule relay_17_not_initial)
  have d: "''relay_17'' \<notin> relayId_of ` set channel_indices_fe"
    using c by (simp add: channel_indices_fe_eq)
  show ?thesis
    using a b c d r r' by blast
qed

text \<open>
  Claim C3, as the specification words it, fails: a second initialisation is meant to
  spare the channels that a snapshot has updated. After a snapshot has switched \<open>relay_3\<close>
  on and named it \<open>Lamp\<close> at time 100, \<open>createRelayControls\<close> puts the channel back to off,
  to its default name and to no timestamp.
\<close>

theorem reinitialisation_erases_live_state:
  "relayStates
     (updateRelayStates (new_HomeAutomationApp ''0 / 16'')
        [(''relay_3'', \<lparr>data_status = Some True, data_name = Some ''Lamp'',
                          data_power_usage = None\<rparr>)] 100)
     ''relay_3''
    = Some \<lparr>status = True, name = ''Lamp'', lastChanged = Some 100\<rparr>
   \<and> relayStates
       (createRelayControls
          (updateRelayStates (new_HomeAutomationApp ''0 / 16'')
             [(''relay_3'', \<lparr>data_status = Some True, data_name = Some ''Lamp'',
                               data_power_usage = None\<rparr>)] 100))
       ''relay_3''
    = Some \<lparr>status = False, name = ''Bedroom AC'', lastChanged = None\<rparr>"
proof -
  have "relayStates (createRelayControls s) ''relay_3''
          = Some \<lparr>status = False, name = ''Bedroom AC'', lastChanged = None\<rparr>" for s
    unfolding relay_3_index
    by (simp add: createRelayControls_hit three_in initial_relay_def relayName_of_def
        RELAY_NAMES_def)
  then show ?thesis
    by (simp add: updateRelayStates_store entry_step or_false_def merged_name_def cached_name_def)
qed

subsection \<open>The entries of the store\<close>

text \<open>
  Claim C2, as the code has it. After any session the identifiers of the store are the
  16 initial ones, which are pairwise distinct, together with every identifier that a
  snapshot has delivered: no entry is ever removed, intents add none, and
  \<open>updateRelayStates\<close> assigns \<open>this.relayStates[relayId]\<close> for every key of the snapshot,
  present before or not. The store has exactly 16 entries as long as every delivered
  identifier is an initial one.
\<close>

theorem store_identifiers_after_session:
  "dom (relayStates (run (new_HomeAutomationApp t) es))
     = relayId_of ` set channel_indices \<union> delivered_ids es
   \<and> distinct (map relayId_of channel_indices)
   \<and> length channel_indices = 16
   \<and> (delivered_ids es \<subseteq> relayId_of ` set channel_indices \<longrightarrow>
        card (dom (relayStates (run (new_HomeAutomationApp t) es))) = 16)"
proof -
  have d: "dom (relayStates (run (new_HomeAutomationApp t) es))
     = relayId_of ` set channel_indices \<union> delivered_ids es"
    by (simp add: run_dom new_app_dom)
  have "card (dom (relayStates (run (new_HomeAutomationApp t) es))) = 16"
    if "delivered_ids es \<subseteq> relayId_of ` set channel_indices"
  proof -
    from that have "relayId_of ` set channel_indices \<union> delivered_ids es
                      = relayId_of ` set channel_indices" by blast
    with d show ?thesis by (simp add: card_initial_ids)
  qed
  moreover have "length channel_indices = 16"
    by (simp add: channel_indices_def)
  ultimately show ?thesis
    using d distinct_relayIds by blast
qed

theorem store_identifiers_after_session_witness:
  "delivered_ids
     [RelaysValue (Some [(''relay_3'', status_only True)]) 100,
      ToggleIntent ''relay_3'' True, SetAllIntent False True, ToggleAllIntent True]
     \<subseteq> relayId_of ` set channel_indices
   \<and> card (dom (relayStates
        (run (new_HomeAutomationApp ''0 / 16'')
           [RelaysValue (Some [(''relay_3'', status_only True)]) 100,
            ToggleIntent ''relay_3'' True, SetAllIntent False True, ToggleAllIntent True])))
       = 16"
proof -
  have h: "delivered_ids
     [RelaysValue (Some [(''relay_3'', status_only True)]) 100,
      ToggleIntent ''relay_3'' True, SetAllIntent False True, ToggleAllIntent True]
     \<subseteq> relayId_of ` set channel_indices"
    using three_in by (simp add: relay_3_index)
  show ?thesis
    using h store_identifiers_after_session
      [of "''0 / 16''" "[RelaysValue (Some [(''relay_3'', status_only True)]) 100,
      ToggleIntent ''relay_3'' True, SetAllIntent False True, ToggleAllIntent True]"]
    by blast
qed

text \<open>
  Claim C2, as the specification words it, fails: a snapshot is meant never to add an
  entry. A snapshot that mentions \<open>relay_17\<close> adds that entry, under the fallback name
  \<open>Device 17\<close>, and the store then has 17 entries.
\<close>

theorem snapshot_adds_unknown_channel:
  "relayStates (new_HomeAutomationApp ''0 / 16'') ''relay_17'' = None
   \<and> card (dom (relayStates (new_HomeAutomationApp ''0 / 16''))) = 16
   \<and> relayStates
       (run (new_HomeAutomationApp ''0 / 16'')
          [RelaysValue (Some [(''relay_17'', status_only True)]) 100])
       ''relay_17''
      = Some \<lparr>status = True, name = ''Device 17'', lastChanged = Some 100\<rparr>
   \<and> card (dom (relayStates
       (run (new_HomeAutomationApp ''0 / 16'')
          [RelaysValue (Some [(''relay_17'', status_only True)]) 100])))
      = 17"
proof -
  have a: "relayStates (new_HomeAutomationApp ''0 / 16'') ''relay_17'' = None"
    using relay_17_not_initial new_app_dom [of "''0 / 16''"] by blast
  have b: "card (dom (relayStates (new_HomeAutomationApp ''0 / 16''))) = 16"
    by (simp add: new_app_dom card_initial_ids)
  have c: "relayStates
       (run (new_HomeAutomationApp ''0 / 16'')
          [RelaysValue (Some [(''relay_17'', status_only True)]) 100])
       ''relay_17''
      = Some \<lparr>status = True, name = ''Device 17'', lastChanged = Some 100\<rparr>"
    by (simp add: on_relays_value_def updateRelayStates_store entry_step a status_only_def
        or_false_def merged_name_def cached_name_def inherited_name_def
        Object_prototype_names_def device_17)
  have "dom (relayStates
       (run (new_HomeAutomationApp ''0 / 16'')
          [RelaysValue (Some [(''relay_17'', status_only True)]) 100]))
      = insert ''relay_17'' (relayId_of ` set channel_indices)"
    unfolding run_dom new_app_dom by simp
  then have d: "card (dom (relayStates
       (run (new_HomeAutomationApp ''0 / 16'')
          [RelaysValue (Some [(''relay_17'', status_only True)]) 100])))
      = 17"
    using relay_17_not_initial by (simp add: card_initial_ids)
  from a b c d show ?thesis by blast
qed

subsection \<open>Toggling all channels\<close>

text \<open>
  Claim C5, as the code has it. When the toggle-all intent is written to the database
  directly (always in \<^verbatim>\<open>js/app.js\<close>; in the frontend when the API server is not connected
  and the 16 entries that the constructor creates exist), it makes exactly one
  batched write: one property per channel, 16 distinct status paths in channel order, each
  bound to the negation of that channel's cached status. When the frontend is connected to
  its API server the intent is one \<open>POST\<close> to the toggle-all endpoint, without values.
\<close>

theorem toggle_all_inverts_each_channel:
  "(\<exists>updates. filter is_write (snd (toggleAllRelays s ok)) = [RefUpdate updates]
      \<and> map fst updates = map (\<lambda>i. status_path (relayId_of i)) channel_indices
      \<and> distinct (map fst updates) \<and> length updates = 16
      \<and> (\<forall>i \<in> set channel_indices. \<forall>r. relayStates s (relayId_of i) = Some r \<longrightarrow>
            map_of updates (status_path (relayId_of i)) = Some (\<not> status r)))
   \<and> (\<not> apiConnected s' \<and> (\<forall>i \<in> set channel_indices. relayStates_fe s' (relayId_of i) \<noteq> None)
        \<longrightarrow>
        (\<exists>updates. filter is_write (snd (toggleAllRelays_fe s' ok)) = [RefUpdate updates]
           \<and> map fst updates = map (\<lambda>i. status_path (relayId_of i)) channel_indices
           \<and> distinct (map fst updates) \<and> length updates = 16
           \<and> (\<forall>i \<in> set channel_indices. \<forall>r. relayStates_fe s' (relayId_of i) = Some r \<longrightarrow>
                 map_of updates (status_path (relayId_of i)) = Some (\<not> status r))))
   \<and> (apiConnected s' \<longrightarrow>
        filter is_write (snd (toggleAllRelays_fe s' ok))
          = [ApiRequest (RELAYS_ENDPOINT @ ''/toggle-all'') ''POST'' None])"
proof -
  let ?u = "map (\<lambda>i. (status_path (relayId_of i), \<not> cached_status (relayStates s) (relayId_of i)))
              channel_indices"
  let ?v = "map (\<lambda>i. (status_path (relayId_of i), \<not> cached_status (relayStates_fe s') (relayId_of i)))
              channel_indices"
  have "filter is_write (snd (toggleAllRelays s ok)) = [RefUpdate ?u]"
    by (simp add: toggleAllRelays_def Let_def)
  with inverted_updates [of ?u "relayStates s"] have js: "\<exists>updates.
      filter is_write (snd (toggleAllRelays s ok)) = [RefUpdate updates]
      \<and> map fst updates = map (\<lambda>i. status_path (relayId_of i)) channel_indices
      \<and> distinct (map fst updates) \<and> length updates = 16
      \<and> (\<forall>i \<in> set channel_indices. \<forall>r. relayStates s (relayId_of i) = Some r \<longrightarrow>
            map_of updates (status_path (relayId_of i)) = Some (\<not> status r))"
    by blast
  have fe: "\<exists>updates. filter is_write (snd (toggleAllRelays_fe s' ok)) = [RefUpdate updates]
           \<and> map fst updates = map (\<lambda>i. status_path (relayId_of i)) channel_indices
           \<and> distinct (map fst updates) \<and> length updates = 16
           \<and> (\<forall>i \<in> set channel_indices. \<forall>r. relayStates_fe s' (relayId_of i) = Some r \<longrightarrow>
                 map_of updates (status_path (relayId_of i)) = Some (\<not> status r))"
    if "\<not> apiConnected s'" "\<forall>i \<in> set channel_indices. relayStates_fe s' (relayId_of i) \<noteq> None"
  proof -
    from that(2) have "toggle_updates_fe (relayStates_fe s') channel_indices_fe = Inr ?v"
      by (simp add: channel_indices_fe_eq toggle_updates_fe_present)
    with that(1) have "filter is_write (snd (toggleAllRelays_fe s' ok)) = [RefUpdate ?v]"
      by (simp add: toggleAllRelays_fe_def Let_def)
    with inverted_updates [of ?v "relayStates_fe s'"] show ?thesis by blast
  qed
  have api: "filter is_write (snd (toggleAllRelays_fe s' ok))
          = [ApiRequest (RELAYS_ENDPOINT @ ''/toggle-all'') ''POST'' None]"
    if "apiConnected s'"
    using that by (simp add: toggleAllRelays_fe_def api_call_def Let_def)
  from js fe api show ?thesis by blast
qed

theorem toggle_all_inverts_each_channel_witness:
  "3 \<in> set channel_indices
   \<and> relayStates
        (updateRelayStates (new_HomeAutomationApp ''0 / 16'')
           [(''relay_3'', status_only True)] 100)
        (relayId_of 3)
      = Some \<lparr>status = True, name = ''Bedroom AC'', lastChanged = Some 100\<rparr>
   \<and> (\<exists>updates.
         filter is_write
           (snd (toggleAllRelays
                   (updateRelayStates (new_HomeAutomationApp ''0 / 16'')
                      [(''relay_3'', status_only True)] 100)
                   True))
           = [RefUpdate updates]
         \<and> length updates = 16
         \<and> map_of updates (status_path (relayId_of 3)) = Some False)
   \<and> \<not> apiConnected (new_HomeAutomationApp_fe ''0/16'')
   \<and> dom (relayStates_fe (new_HomeAutomationApp_fe ''0/16'')) = relayId_of ` set channel_indices
   \<and> relayStates_fe (new_HomeAutomationApp_fe ''0/16'') (relayId_of 3)
      = Some \<lparr>status = False, name = ''Bedroom AC'', lastChanged = None, powerUsage = 0\<rparr>
   \<and> (\<exists>updates.
         filter is_write (snd (toggleAllRelays_fe (new_HomeAutomationApp_fe ''0/16'') True))
           = [RefUpdate updates]
         \<and> length updates = 16
         \<and> map_of updates (status_path (relayId_of 3)) = Some True)
   \<and> apiConnected (fst (checkApiConnection (new_HomeAutomationApp_fe ''0/16'') True))
   \<and> filter is_write
        (snd (toggleAllRelays_fe
                (fst (checkApiConnection (new_HomeAutomationApp_fe ''0/16'') True)) True))
      = [ApiRequest (RELAYS_ENDPOINT @ ''/toggle-all'') ''POST'' None]"
proof -
  let ?s = "updateRelayStates (new_HomeAutomationApp ''0 / 16'')
              [(''relay_3'', status_only True)] 100"
  let ?f = "new_HomeAutomationApp_fe ''0/16''"
  let ?c = "fst (checkApiConnection (new_HomeAutomationApp_fe ''0/16'') True)"
  have a: "3 \<in> set channel_indices" by (rule three_in)
  have b: "relayStates ?s (relayId_of 3)
      = Some \<lparr>status = True, name = ''Bedroom AC'', lastChanged = Some 100\<rparr>"
    unfolding relay_3_index [symmetric]
    by (simp add: updateRelayStates_store entry_step status_only_def or_false_def
        new_app_relay_3 merged_name_def cached_name_def)
  have c: "\<not> apiConnected ?f" by (rule new_app_fe_not_connected)
  have d: "dom (relayStates_fe ?f) = relayId_of ` set channel_indices" by (rule new_app_fe_dom)
  then have d': "\<forall>i \<in> set channel_indices. relayStates_fe ?f (relayId_of i) \<noteq> None"
    by blast
  have e: "relayStates_fe ?f (relayId_of 3)
      = Some \<lparr>status = False, name = ''Bedroom AC'', lastChanged = None, powerUsage = 0\<rparr>"
    unfolding relay_3_index [symmetric] by (rule new_app_fe_relay_3)
  have f: "apiConnected ?c" by (simp add: checkApiConnection_def)
  note t1 = toggle_all_inverts_each_channel [where s = ?s and s' = ?f and ok = True]
  note t2 = toggle_all_inverts_each_channel [where s = ?s and s' = ?c and ok = True]
  from t1 a b have g: "\<exists>updates.
         filter is_write (snd (toggleAllRelays ?s True)) = [RefUpdate updates]
         \<and> length updates = 16
         \<and> map_of updates (status_path (relayId_of 3)) = Some False"
    by fastforce
  from t1 c d' obtain updates where
      u: "filter is_write (snd (toggleAllRelays_fe ?f True)) = [RefUpdate updates]"
         "length updates = 16"
         "\<forall>i \<in> set channel_indices. \<forall>r. relayStates_fe ?f (relayId_of i) = Some r \<longrightarrow>
                 map_of updates (status_path (relayId_of i)) = Some (\<not> status r)"
    by blast
  from u(3) a e have "map_of updates (status_path (relayId_of 3)) = Some True"
    by fastforce
  with u have h: "\<exists>updates.
         filter is_write (snd (toggleAllRelays_fe ?f True)) = [RefUpdate updates]
         \<and> length updates = 16
         \<and> map_of updates (status_path (relayId_of 3)) = Some True"
    by blast
  from t2 f have i: "filter is_write (snd (toggleAllRelays_fe ?c True))
      = [ApiRequest (RELAYS_ENDPOINT @ ''/toggle-all'') ''POST'' None]"
    by blast
  from a b g c d e h f i show ?thesis by blast
qed

text \<open>
  Claim C5, as the specification words it, fails for the frontend: every toggle-all intent
  is meant to produce a batched write of per-channel values. Once \<open>checkApiConnection\<close>
  has found the API server, \<open>toggleAllRelays\<close> sends a single request to the server and
  no batched write.
\<close>

theorem toggle_all_through_api_sends_no_values:
  "apiConnected (fst (checkApiConnection (new_HomeAutomationApp_fe ''0/16'') True))
   \<and> snd (toggleAllRelays_fe (fst (checkApiConnection (new_HomeAutomationApp_fe ''0/16'') True))
            True)
      = [ApiRequest ''/relays/toggle-all'' ''POST'' None,
         Notification ''All relays toggled'' ''success'']"
  by (simp add: checkApiConnection_def toggleAllRelays_fe_def api_call_def RELAYS_ENDPOINT_def
      Let_def)

subsection \<open>The lookup of a toggle\<close>

text \<open>
  Claim C10, as the code has it. \<open>toggleRelay\<close> reads the cached entry without a guard.
  With an entry under the identifier the call returns and writes the negated status once,
  in both variants; in every state a session of \<^verbatim>\<open>js/app.js\<close> reaches, the 16 initial
  identifiers and those delivered by snapshots have an entry. With no entry the frontend,
  whose store is a \<open>Map\<close>, faults with a \<open>TypeError\<close> and writes nothing (the result carries
  no effects). In \<^verbatim>\<open>js/app.js\<close>, whose store is a plain object, the call faults in the same
  way unless the identifier names a property inherited from \<open>Object.prototype\<close>; for such
  a name the lookup succeeds, the status reads \<open>undefined\<close>, and the call writes \<open>true\<close> to
  the status path of that name.
\<close>

theorem toggle_lookup_outcomes:
  "(relayStates s relayId = None \<and> relayId \<notin> set Object_prototype_names \<longrightarrow>
      toggleRelay s relayId ok = Inl TypeError)
   \<and> (relayStates s relayId = None \<and> relayId \<in> set Object_prototype_names \<longrightarrow>
         (\<exists>fx. toggleRelay s relayId ok = Inr (s, fx)
            \<and> filter is_write fx = [RefSet (status_path relayId) True]))
   \<and> (\<forall>r. relayStates s relayId = Some r \<longrightarrow>
         (\<exists>fx. toggleRelay s relayId ok = Inr (s, fx)
            \<and> filter is_write fx = [RefSet (status_path relayId) (\<not> status r)]))
   \<and> (relayStates_fe s' relayId = None \<longrightarrow> toggleRelay_fe s' relayId ok = Inl TypeError)
   \<and> (\<forall>r. relayStates_fe s' relayId = Some r \<longrightarrow>
         (\<exists>fx. toggleRelay_fe s' relayId ok = Inr (s', fx)
            \<and> filter is_write fx
                = [if apiConnected s'
                   then ApiRequest (RELAYS_ENDPOINT @ ''/'' @ relayId) ''PUT''
                          (Some (\<not> status r))
                   else RefSet (status_path relayId) (\<not> status r)]))
   \<and> (relayId \<in> relayId_of ` set channel_indices \<union> delivered_ids es \<longrightarrow>
        relayStates (run (new_HomeAutomationApp t) es) relayId \<noteq> None)"
proof -
  have "relayStates (run (new_HomeAutomationApp t) es) relayId \<noteq> None"
    if "relayId \<in> relayId_of ` set channel_indices \<union> delivered_ids es"
  proof -
    have "dom (relayStates (run (new_HomeAutomationApp t) es))
            = relayId_of ` set channel_indices \<union> delivered_ids es"
      by (simp add: run_dom new_app_dom)
    with that show ?thesis by blast
  qed
  moreover have "toggleRelay s relayId ok = Inl TypeError"
    if "relayStates s relayId = None" "relayId \<notin> set Object_prototype_names"
    using that by (simp add: toggleRelay_def)
  moreover have "\<exists>fx. toggleRelay s relayId ok = Inr (s, fx)
            \<and> filter is_write fx = [RefSet (status_path relayId) True]"
    if "relayStates s relayId = None" "relayId \<in> set Object_prototype_names"
    using that by (simp add: toggleRelay_def setRelay_def)
  moreover have "\<exists>fx. toggleRelay s relayId ok = Inr (s, fx)
            \<and> filter is_write fx = [RefSet (status_path relayId) (\<not> status r)]"
    if "relayStates s relayId = Some r" for r
    using that by (simp add: toggleRelay_def setRelay_def)
  moreover have "toggleRelay_fe s' relayId ok = Inl TypeError"
    if "relayStates_fe s' relayId = None"
    using that by (simp add: toggleRelay_fe_def)
  moreover have "\<exists>fx. toggleRelay_fe s' relayId ok = Inr (s', fx)
            \<and> filter is_write fx
                = [if apiConnected s'
                   then ApiRequest (RELAYS_ENDPOINT @ ''/'' @ relayId) ''PUT''
                          (Some (\<not> status r))
                   else RefSet (status_path relayId) (\<not> status r)]"
    if "relayStates_fe s' relayId = Some r" for r
    using that by (simp add: toggleRelay_fe_def api_call_def Let_def)
  ultimately show ?thesis by blast
qed

theorem toggle_lookup_outcomes_witness:
  "relayStates (new_HomeAutomationApp ''0 / 16'') ''relay_17'' = None
   \<and> ''relay_17'' \<notin> set Object_prototype_names
   \<and> toggleRelay (new_HomeAutomationApp ''0 / 16'') ''relay_17'' True = Inl TypeError
   \<and> relayStates (new_HomeAutomationApp ''0 / 16'') ''toString'' = None
   \<and> ''toString'' \<in> set Object_prototype_names
   \<and> (\<exists>fx. toggleRelay (new_HomeAutomationApp ''0 / 16'') ''toString'' True
              = Inr (new_HomeAutomationApp ''0 / 16'', fx)
         \<and> filter is_write fx = [RefSet (status_path ''toString'') True])
   \<and> relayStates_fe (new_HomeAutomationApp_fe ''0/16'') ''relay_17'' = None
   \<and> toggleRelay_fe (new_HomeAutomationApp_fe ''0/16'') ''relay_17'' True = Inl TypeError
   \<and> relayStates (new_HomeAutomationApp ''0 / 16'') ''relay_3''
      = Some \<lparr>status = False, name = ''Bedroom AC'', lastChanged = None\<rparr>
   \<and> (\<exists>fx. toggleRelay (new_HomeAutomationApp ''0 / 16'') ''relay_3'' True
              = Inr (new_HomeAutomationApp ''0 / 16'', fx)
         \<and> filter is_write fx = [RefSet (status_path ''relay_3'') True])
   \<and> relayStates_fe (new_HomeAutomationApp_fe ''0/16'') ''relay_3''
      = Some \<lparr>status = False, name = ''Bedroom AC'', lastChanged = None, powerUsage = 0\<rparr>
   \<and> (\<exists>fx. toggleRelay_fe (new_HomeAutomationApp_fe ''0/16'') ''relay_3'' True
              = Inr (new_HomeAutomationApp_fe ''0/16'', fx)
         \<and> filter is_write fx = [RefSet (status_path ''relay_3'') True])
   \<and> ''relay_3'' \<in> relayId_of ` set channel_indices \<union> delivered_ids []
   \<and> relayStates (run (new_HomeAutomationApp ''0 / 16'') []) ''relay_3'' \<noteq> None"
proof -
  have a: "relayStates (new_HomeAutomationApp ''0 / 16'') ''relay_17'' = None"
    using relay_17_not_initial new_app_dom [of "''0 / 16''"] by blast
  have a': "''relay_17'' \<notin> set Object_prototype_names"
    by (simp add: Object_prototype_names_def)
  have b: "relayStates_fe (new_HomeAutomationApp_fe ''0/16'') ''relay_17'' = None"
    using relay_17_not_initial new_app_fe_dom [of "''0/16''"] by blast
  have c: "''relay_3'' \<in> relayId_of ` set channel_indices \<union> delivered_ids []"
    using three_in by (simp add: relay_3_index)
  have d: "relayStates (new_HomeAutomationApp ''0 / 16'') ''toString'' = None"
    using toString_not_initial new_app_dom [of "''0 / 16''"] by blast
  have d': "''toString'' \<in> set Object_prototype_names"
    by (simp add: Object_prototype_names_def)
  note m = toggle_lookup_outcomes
    [where s = "new_HomeAutomationApp ''0 / 16''" and relayId = "''relay_17''" and ok = True
       and s' = "new_HomeAutomationApp_fe ''0/16''" and t = "''0 / 16''" and es = "[]"]
  note q = toggle_lookup_outcomes
    [where s = "new_HomeAutomationApp ''0 / 16''" and relayId = "''toString''" and ok = True
       and s' = "new_HomeAutomationApp_fe ''0/16''" and t = "''0 / 16''" and es = "[]"]
  note p = toggle_lookup_outcomes
    [where s = "new_HomeAutomationApp ''0 / 16''" and relayId = "''relay_3''" and ok = True
       and s' = "new_HomeAutomationApp_fe ''0/16''" and t = "''0 / 16''" and es = "[]"]
  from m a a' b have "toggleRelay (new_HomeAutomationApp ''0 / 16'') ''relay_17'' True = Inl TypeError"
    and "toggleRelay_fe (new_HomeAutomationApp_fe ''0/16'') ''relay_17'' True = Inl TypeError"
    by blast+
  moreover from q d d'
  have "\<exists>fx. toggleRelay (new_HomeAutomationApp ''0 / 16'') ''toString'' True
              = Inr (new_HomeAutomationApp ''0 / 16'', fx)
         \<and> filter is_write fx = [RefSet (status_path ''toString'') True]"
    by blast
  moreover from p new_app_relay_3 [of "''0 / 16''"]
  have "\<exists>fx. toggleRelay (new_HomeAutomationApp ''0 / 16'') ''relay_3'' True
              = Inr (new_HomeAutomationApp ''0 / 16'', fx)
         \<and> filter is_write fx = [RefSet (status_path ''relay_3'') True]"
    by fastforce
  moreover from p new_app_fe_relay_3 [of "''0/16''"] new_app_fe_not_connected [of "''0/16''"]
  have "\<exists>fx. toggleRelay_fe (new_HomeAutomationApp_fe ''0/16'') ''relay_3'' True
              = Inr (new_HomeAutomationApp_fe ''0/16'', fx)
         \<and> filter is_write fx = [RefSet (status_path ''relay_3'') True]"
    by fastforce
  moreover from p c
  have "relayStates (run (new_HomeAutomationApp ''0 / 16'') []) ''relay_3'' \<noteq> None"
    by blast
  ultimately show ?thesis
    using a a' b c d d' new_app_relay_3 [of "''0 / 16''"] new_app_fe_relay_3 [of "''0/16''"]
    by blast
qed

text \<open>
  Claim C10, as the specification words it, fails for \<^verbatim>\<open>js/app.js\<close>: every identifier
  with no store entry is meant to fault before any remote write. The freshly constructed
  store has no entry \<open>constructor\<close>, yet toggling that identifier does not fault: it writes
  \<open>true\<close> to the status path of \<open>constructor\<close>.
\<close>

theorem toggle_of_inherited_name_writes:
  "relayStates (new_HomeAutomationApp ''0 / 16'') ''constructor'' = None
   \<and> toggleRelay (new_HomeAutomationApp ''0 / 16'') ''constructor'' True
      = Inr (new_HomeAutomationApp ''0 / 16'',
             [RefSet ''home_automation/devices/pico_w_001/relays/constructor/status'' True,
              ConsoleLog ''constructor set to ON''])"
proof -
  have "relayStates (new_HomeAutomationApp ''0 / 16'') ''constructor'' = None"
    using constructor_not_initial new_app_dom [of "''0 / 16''"] by blast
  then show ?thesis
    by (simp add: toggleRelay_def setRelay_def Object_prototype_names_def status_path_def
        DEVICE_ID_def on_off_def)
qed

end
